theory Spec2Isabelle
  imports Complex_Main
begin

section \<open>Data model of \<open>ui-client/src/actions/session.ts\<close>\<close>

text \<open>
  A JavaScript error value. \<open>TypeError\<close> is what reading a property of \<open>null\<close> or
  \<open>undefined\<close> throws (the non-null assertions \<open>x!\<close> of the source are erased at
  compile time); \<open>Failure\<close> is whatever a collaborator's promise rejects with.
\<close>

datatype error = TypeError | Failure string

text \<open>
  How an awaited computation ends: it returns, it throws (the promise rejects), or it
  never settles (\<open>Hang\<close>: the \<open>await\<close> never resumes).
\<close>

datatype 'a completion = Normal 'a | Throw error | Hang

record Attestation =
  isIdentified :: bool

record UserContext =
  name :: string
  isAdmin :: bool
  isFederatedOkay :: bool

text \<open>
  The enum \<open>AuthMechanismType\<close> is declared in \<open>models/Auth\<close>, which is not part of
  the sources at hand; the code only compares against \<open>Unsecured\<close>.
\<close>

datatype AuthMechanismType = Unsecured | Mechanism nat

record AuthenticationConfig =
  mechanism :: AuthMechanismType
  logoutUri :: "string option"

record AppConfig =
  authentication :: AuthenticationConfig

record AuthState =
  userContext :: "UserContext option"
  config :: "AppConfig option"

record AppState =
  auth :: AuthState

text \<open>
  \<open>NetworkIdentityResponseDTO\<close>: a configured partner, known before its identity is
  resolved. \<open>NetworkIdentity\<close>: a node's identity; \<open>ni_display\<close> stands for the
  display fields, which the code copies and never reads.
\<close>

record NetworkIdentityResponseDTO =
  nr_id :: int
  nr_address :: string

record NetworkIdentity =
  ni_address :: string
  ni_enabled :: bool
  ni_id :: int
  ni_isHomeNode :: bool
  ni_display :: string

record NetworkIdentityRespondersDTO =
  identity :: NetworkIdentity
  responders :: "NetworkIdentityResponseDTO list"

section \<open>\<open>getResponderIdentities\<close>\<close>

text \<open>\<open>String.prototype.endsWith\<close>, on strings as lists of code units.\<close>

definition endsWith :: "string \<Rightarrow> string \<Rightarrow> bool" where
  "endsWith s suffix =
     (length suffix \<le> length s \<and> drop (length s - length suffix) s = suffix)"

text \<open>
  Lines 162-164: \<open>if (nr.address.endsWith("/")) nr.address =
  nr.address.substring(0, nr.address.length-1)\<close>.
\<close>

definition normalizeAddress :: "string \<Rightarrow> string" where
  "normalizeAddress a = (if endsWith a ''/'' then take (length a - 1) a else a)"

text \<open>
  The synchronous part of the \<open>map\<close> callback: the descriptor is updated in place, and
  the updated descriptor is what \<open>fetchResponderIdentity\<close> receives.
\<close>

definition normalizeResponder :: "NetworkIdentityResponseDTO \<Rightarrow> NetworkIdentityResponseDTO" where
  "normalizeResponder nr = nr\<lparr>nr_address := normalizeAddress (nr_address nr)\<rparr>"

text \<open>
  \<open>fetchResponderIdentity\<close> (services/networkRespondersApi) is a collaborator outside
  the sources at hand, so it is a parameter: \<open>fetch k st nr\<close> is how the request issued
  for the \<open>k\<close>-th configured partner settles, \<open>Inr data\<close> when the promise fulfils with
  \<open>response.data = data\<close> and \<open>Inl e\<close> when it rejects with \<open>e\<close>. The ordinal \<open>k\<close> lets
  two requests to the same address settle differently.
\<close>

type_synonym fetcher = "nat \<Rightarrow> AppState \<Rightarrow> NetworkIdentityResponseDTO \<Rightarrow> error + NetworkIdentity"

text \<open>
  The state of the fan-out: the array \<open>responders\<close> the callbacks push to, the calls
  made to \<open>errorResponder\<close> (its two arguments), and the indices of the per-node
  promises that have resolved.
\<close>

record fanout =
  pushed :: "NetworkIdentity list"
  errorResponderCalls :: "(int \<times> error) list"
  resolved :: "nat list"

text \<open>
  Line 169, the fulfilment callback's object literal
  \<open>{ ...response.data, address: nr.address, enabled: true, id: (id + 1), isHomeNode: false }\<close>,
  where \<open>id\<close> is the second argument of the \<open>map\<close> callback: the index of \<open>nr\<close> in
  \<open>homebase.responders\<close>.
\<close>

definition responderEntry :: "NetworkIdentityResponseDTO \<Rightarrow> nat \<Rightarrow> NetworkIdentity \<Rightarrow> NetworkIdentity" where
  "responderEntry nr i data =
     data\<lparr>ni_address := nr_address nr, ni_enabled := True, ni_id := int i + 1,
          ni_isHomeNode := False\<rparr>"

text \<open>
  One request settles (lines 167-171). JavaScript runs each callback to completion, so
  a settlement is one atomic step: on fulfilment the entry is pushed, on rejection
  \<open>errorResponder(nr.id, error)\<close> is called, and in both cases the following
  \<open>.then(() => resolve())\<close> resolves the per-node promise. \<open>errorResponder\<close>
  (actions/networkResponders) is outside the sources at hand: the model records the
  call and its arguments, and takes it to return; the code does nothing with what it
  returns. \<open>nrs\<close> are the descriptors
  after normalisation, \<open>outcome i\<close> is how request \<open>i\<close> settles. A promise settles once:
  an index out of range or already resolved is no event.
\<close>

definition settle ::
  "NetworkIdentityResponseDTO list \<Rightarrow> (nat \<Rightarrow> error + NetworkIdentity) \<Rightarrow> nat \<Rightarrow> fanout \<Rightarrow> fanout" where
  "settle nrs outcome i s =
     (if i < length nrs \<and> i \<notin> set (resolved s) then
        (case outcome i of
           Inr data \<Rightarrow>
             s\<lparr>pushed := pushed s @ [responderEntry (nrs ! i) i data],
               resolved := resolved s @ [i]\<rparr>
         | Inl err \<Rightarrow>
             s\<lparr>errorResponderCalls := errorResponderCalls s @ [(nr_id (nrs ! i), err)],
               resolved := resolved s @ [i]\<rparr>)
      else s)"

text \<open>
  The requests run concurrently; the order in which they settle is decided by the
  network. \<open>schedule\<close> lists the indices of the requests in the order they settle; a
  request that is not listed never settles.
\<close>

fun settleAll ::
  "NetworkIdentityResponseDTO list \<Rightarrow> (nat \<Rightarrow> error + NetworkIdentity) \<Rightarrow> nat list \<Rightarrow> fanout \<Rightarrow> fanout" where
  "settleAll nrs outcome [] s = s"
| "settleAll nrs outcome (i # schedule) s = settleAll nrs outcome schedule (settle nrs outcome i s)"

text \<open>
  What a call of \<open>getResponderIdentities\<close> leaves behind when its promise fulfils: the
  array it returns, the requests it issued (the descriptors handed to
  \<open>fetchResponderIdentity\<close>, in the order of the calls) and the calls it made to
  \<open>errorResponder\<close>.
\<close>

record aggregate =
  identities :: "NetworkIdentity list"
  requests :: "NetworkIdentityResponseDTO list"
  reported :: "(int \<times> error) list"

text \<open>
  Lines 152-176. \<open>st\<close> is the value of \<open>getState()\<close>: every call of it happens
  synchronously before the first \<open>await\<close>. The guard is JavaScript's short-circuit
  \<open>&&\<close>: \<open>userContext\<close> is read only when the first two operands are truthy, and
  reading \<open>isFederatedOkay\<close> of a missing user context throws. \<open>Promise.all\<close> fulfils
  once every per-node promise has resolved; none of them is ever rejected.
\<close>

definition getResponderIdentities ::
  "fetcher \<Rightarrow> nat list \<Rightarrow> AppState \<Rightarrow> Attestation \<Rightarrow> NetworkIdentityRespondersDTO \<Rightarrow> aggregate completion" where
  "getResponderIdentities fetch schedule st attestation homebase =
     (let home = \<lparr>identities = [identity homebase], requests = [], reported = []\<rparr> in
      if \<not> isIdentified attestation \<and> length (responders homebase) \<noteq> 0 then
        (case userContext (auth st) of
           None \<Rightarrow> Throw TypeError
         | Some uc \<Rightarrow>
             if isFederatedOkay uc then
               (let nrs = map normalizeResponder (responders homebase);
                    s = settleAll nrs (\<lambda>i. fetch i st (nrs ! i)) schedule
                          \<lparr>pushed = [identity homebase], errorResponderCalls = [], resolved = []\<rparr>
                in if list_all (\<lambda>i. i \<in> set (resolved s)) [0..<length nrs]
                   then Normal \<lparr>identities = pushed s, requests = nrs,
                                reported = errorResponderCalls s\<rparr>
                   else Hang)
             else Normal home)
      else Normal home)"

text \<open>
  A schedule in which each of the \<open>n\<close> requests settles exactly once.
\<close>

definition allSettle :: "nat \<Rightarrow> nat list \<Rightarrow> bool" where
  "allSettle n schedule = (distinct schedule \<and> set schedule = set [0..<n])"

section \<open>Actions\<close>

text \<open>
  The session context: the code reads \<open>ctx.rawDecoded["access-nonce"]\<close>, which is
  \<open>undefined\<close> when the decoded token has no such entry.
\<close>

record SessionContext =
  rawDecoded :: "(string \<times> string) list"

text \<open>
  What the thunks dispatch. The five session actions are built by the creators of
  \<open>session.ts\<close> (lines 245-279) and carry the creator's arguments; the others are
  built by creators imported from sibling modules and are named after them. \<open>'p\<close> is
  the type of the payloads the code passes on without looking inside. \<open>Collaborator\<close>
  is an action dispatched not by \<open>session.ts\<close> but by a collaborator that was handed
  \<open>dispatch\<close>. The actions a
  resume confirmation dispatches when it is answered are kept apart, so that the
  confirmation can carry its two callbacks as the lists of actions they dispatch.
\<close>

datatype 'p restore_action =
    SetCurrentQuery 'p
  | SetPanels 'p
  | SetPanelFilterActiveStates 'p

record 'p ConfirmationModalState =
  body :: string
  header :: string
  onClickNo :: "'p restore_action list"
  onClickYes :: "'p restore_action list"
  show_modal :: bool
  noButtonText :: string
  yesButtonText :: string

datatype 'p action =
    SET_SESSION_LOAD_STATE string nat
  | SUBMIT_ATTESTATION Attestation
  | SET_ACCESS_TOKEN SessionContext
  | COMPLETE_ATTESTATION "string option"
  | ERROR_ATTESTATION bool
  | SetUserInquiryState string bool
  | SetAdminNetworkIdentity NetworkIdentity bool
  | SetResponders "NetworkIdentity list"
  | RegisterNetworkCohorts "NetworkIdentity list"
  | SetExportOptions 'p
  | SetImportOptions 'p
  | SetDatasets 'p 'p
  | AddSavedQueries 'p
  | SetExtensionRootConcepts 'p
  | ShowConfirmationModal "'p ConfirmationModalState"
  | Collaborator 'p

definition errorAttestation :: "bool \<Rightarrow> 'p action" where
  "errorAttestation err = ERROR_ATTESTATION err"

definition submitAttestation :: "Attestation \<Rightarrow> 'p action" where
  "submitAttestation attestation = SUBMIT_ATTESTATION attestation"

definition setSessionContext :: "SessionContext \<Rightarrow> 'p action" where
  "setSessionContext context = SET_ACCESS_TOKEN context"

definition completeAttestation :: "string option \<Rightarrow> 'p action" where
  "completeAttestation nonce = COMPLETE_ATTESTATION nonce"

definition setSessionLoadState :: "string \<Rightarrow> nat \<Rightarrow> 'p action" where
  "setSessionLoadState sessionLoadDisplay sessionLoadProgressPercent =
     SET_SESSION_LOAD_STATE sessionLoadDisplay sessionLoadProgressPercent"

section \<open>\<open>handleSessionReload\<close>\<close>

text \<open>
  A saved session, as \<open>getPrevSession\<close> returns it: \<open>timestamp\<close> in seconds,
  \<open>queries_current\<close> for \<open>prev.queries.current\<close>.
\<close>

record 'p PrevSession =
  timestamp :: rat
  queries_current :: 'p
  panels :: 'p
  panelFilters :: 'p

text \<open>
  Line 288: \<open>Math.floor(((new Date().getTime() / 1000) - prev.timestamp) / 60)\<close>, with
  \<open>now\<close> the clock in milliseconds. JavaScript's numbers are taken as exact here: the
  quantities are many orders of magnitude below \<open>2^53\<close>.
\<close>

definition diffMinutes :: "int \<Rightarrow> rat \<Rightarrow> int" where
  "diffMinutes now ts = \<lfloor>((of_int now / 1000) - ts) / 60\<rfloor>"

text \<open>The decimal numeral a template literal renders an integer as.\<close>

definition digit :: "nat \<Rightarrow> char" where
  "digit d = ''0123456789'' ! d"

fun showNat :: "nat \<Rightarrow> string" where
  "showNat n = (if n < 10 then [digit n] else showNat (n div 10) @ [digit (n mod 10)])"

definition showInt :: "int \<Rightarrow> string" where
  "showInt i = (if i < 0 then ''-'' @ showNat (nat (- i)) else showNat (nat i))"

text \<open>Lines 289-292.\<close>

definition diffDisplay :: "int \<Rightarrow> string" where
  "diffDisplay minutes =
     (if minutes = 0 then ''less than a minute ago''
      else if minutes = 1 then ''about 1 minute ago''
      else ''about '' @ showInt minutes @ '' minutes ago'')"

text \<open>
  Lines 285-312. \<open>getPrevSession\<close> (services/sessionApi) is a collaborator, so it is a
  parameter; it is synchronous and taken to return, a falsy result being \<open>None\<close>. The
  two callbacks of the confirmation are given by the actions they dispatch when called.
  The result is the list of actions dispatched.
\<close>

definition handleSessionReload ::
  "(AppState \<Rightarrow> 'p PrevSession option) \<Rightarrow> int \<Rightarrow> AppState \<Rightarrow> 'p action list" where
  "handleSessionReload getPrevSession now state =
     (case getPrevSession state of
        None \<Rightarrow> []
      | Some prev \<Rightarrow>
          (let minutes = diffMinutes now (timestamp prev);
               display = diffDisplay minutes;
               yes = [SetCurrentQuery (queries_current prev), SetPanels (panels prev),
                      SetPanelFilterActiveStates (panelFilters prev)]
           in if minutes < 60 * 8 then
                [ShowConfirmationModal
                   \<lparr>body = ''Do you want to resume your previous session (saved '' @ display @ '')?'',
                    header = ''Continue previous session'',
                    onClickNo = [],
                    onClickYes = yes,
                    show_modal = True,
                    noButtonText = ''No, I'' @ [CHR 0x27] @ ''ll start fresh'',
                    yesButtonText = ''Yes, load my previous query''\<rparr>]
              else []))"

section \<open>\<open>logout\<close>\<close>






section \<open>\<open>attestAndLoadSession\<close>\<close>

text \<open>
  A thunk is run on the list of actions dispatched so far and yields the list at its
  end and how it ends. The code is a sequence of statements, so each statement below
  takes the rest of the block as its last argument.
\<close>

type_synonym 'p thunk = "'p action list \<Rightarrow> 'p action list \<times> unit completion"

definition dispatch :: "'p action \<Rightarrow> 'p thunk \<Rightarrow> 'p thunk" where
  "dispatch a rest dispatched = rest (dispatched @ [a])"

definition dispatchAll :: "'p action list \<Rightarrow> 'p thunk \<Rightarrow> 'p thunk" where
  "dispatchAll as rest dispatched = rest (dispatched @ as)"

text \<open>
  \<open>const v = await promise\<close>: a rejection leaves the block at once, and a promise that
  never settles leaves it suspended. An expression that throws is the case \<open>Throw\<close>.
\<close>

definition await :: "'a completion \<Rightarrow> ('a \<Rightarrow> 'p thunk) \<Rightarrow> 'p thunk" where
  "await promise rest dispatched =
     (case promise of
        Normal v \<Rightarrow> rest v dispatched
      | Throw e \<Rightarrow> (dispatched, Throw e)
      | Hang \<Rightarrow> (dispatched, Hang))"

text \<open>
  A collaborator that is handed \<open>dispatch\<close>: the payloads of the actions it dispatches
  itself, and how its promise settles.
\<close>

definition awaitWith :: "'p list \<times> unit completion \<Rightarrow> 'p thunk \<Rightarrow> 'p thunk" where
  "awaitWith collaborator rest =
     dispatchAll (map Collaborator (fst collaborator)) (await (snd collaborator) (\<lambda>_. rest))"

text \<open>\<open>if (b) { dispatch(a); }\<close>\<close>

definition dispatchIf :: "bool \<Rightarrow> 'p action \<Rightarrow> 'p thunk \<Rightarrow> 'p thunk" where
  "dispatchIf b a rest = (if b then dispatch a rest else rest)"

definition finish :: "'p thunk" where
  "finish dispatched = (dispatched, Normal ())"

text \<open>
  Everything outside \<open>session.ts\<close> that a run of the thunk meets. The reducers are not
  part of the sources at hand: \<open>getState env as\<close> is the store's state once the
  actions \<open>as\<close> have been dispatched. A collaborator is given by how its promise
  settles, whatever it is called with (for \<open>getExportOptions\<close> and
  \<open>getImportOptions\<close>, with the \<open>data\<close> of the response); \<open>fetchResponderIdentity\<close> and \<open>settlingOrder\<close> are the two parameters of
  the fan-out, \<open>clock\<close> is \<open>new Date().getTime()\<close>.
\<close>

record 'p environment =
  getState :: "'p action list \<Rightarrow> AppState"
  getSessionTokenAndContext :: "SessionContext completion"
  fetchHomeIdentityAndResponders :: "NetworkIdentityRespondersDTO completion"
  fetchResponderIdentity :: fetcher
  settlingOrder :: "nat list"
  getExportOptions :: "'p completion"
  getImportOptions :: "'p completion"
  requestRootConcepts :: "'p list \<times> unit completion"
  fetchAvailableDatasets :: "'p completion"
  indexDatasets :: "'p completion"
  getSavedQueries :: "'p completion"
  getExtensionRootConcepts :: "'p completion"
  initializeSearchEngine :: "'p list \<times> unit completion"
  getPrevSession :: "AppState \<Rightarrow> 'p PrevSession option"
  clock :: int

definition withState :: "'p environment \<Rightarrow> (AppState \<Rightarrow> 'p thunk) \<Rightarrow> 'p thunk" where
  "withState env rest dispatched = rest (getState env dispatched) dispatched"

text \<open>\<open>state.auth.userContext!\<close>, read for one of its properties.\<close>

definition userContextOf :: "AppState \<Rightarrow> UserContext completion" where
  "userContextOf state =
     (case userContext (auth state) of None \<Rightarrow> Throw TypeError | Some uc \<Rightarrow> Normal uc)"

text \<open>The \<open>try\<close> block, lines 58-142.\<close>

definition attestAndLoadSession_try :: "'p environment \<Rightarrow> Attestation \<Rightarrow> 'p thunk" where
  "attestAndLoadSession_try env attestation =
     dispatch (setSessionLoadState ''Submitting Attestation'' 5) (
     dispatch (submitAttestation attestation) (
     await (getSessionTokenAndContext env) (\<lambda>ctx.
     dispatch (setSessionContext ctx) (
     withState env (\<lambda>state. await (userContextOf state) (\<lambda>uc.
     dispatch (SetUserInquiryState (name uc) False) (

     dispatch (setSessionLoadState ''Finding Home Leaf server'' 10) (
     await (fetchHomeIdentityAndResponders env) (\<lambda>homeBase.
     withState env (\<lambda>state. await (userContextOf state) (\<lambda>uc.
     dispatchIf (isAdmin uc) (SetAdminNetworkIdentity (identity homeBase) False) (

     dispatch (setSessionLoadState ''Finding Partner Leaf servers'' 20) (
     withState env (\<lambda>state.
     await (getResponderIdentities (fetchResponderIdentity env) (settlingOrder env) state
              attestation homeBase) (\<lambda>found.
     dispatch (SetResponders (identities found)) (
     dispatch (RegisterNetworkCohorts (identities found)) (

     dispatch (setSessionLoadState ''Loading Export options'' 30) (
     await (getExportOptions env) (\<lambda>exportOpts.
     dispatch (SetExportOptions exportOpts) (

     dispatch (setSessionLoadState ''Loading Import options'' 40) (
     await (getImportOptions env) (\<lambda>importOpts.
     dispatch (SetImportOptions importOpts) (

     dispatch (setSessionLoadState ''Loading Concepts'' 50) (
     awaitWith (requestRootConcepts env) (

     dispatch (setSessionLoadState ''Loading Patient List Datasets'' 60) (
     await (fetchAvailableDatasets env) (\<lambda>datasets.
     await (indexDatasets env) (\<lambda>datasetsCategorized.
     dispatch (SetDatasets datasets datasetsCategorized) (

     dispatch (setSessionLoadState ''Loading Saved Queries'' 70) (
     await (getSavedQueries env) (\<lambda>savedCohorts.
     dispatch (AddSavedQueries savedCohorts) (

     dispatch (setSessionLoadState ''Loading Extension Concepts'' 80) (
     await (getExtensionRootConcepts env) (\<lambda>extensionConcepts.
     dispatch (SetExtensionRootConcepts extensionConcepts) (

     dispatch (setSessionLoadState ''Initializing Search Engine'' 100) (
     awaitWith (initializeSearchEngine env) (

     dispatch (completeAttestation (map_of (rawDecoded ctx) ''access-nonce'')) (

     withState env (\<lambda>state.
     dispatchAll (handleSessionReload (getPrevSession env) (clock env) state)
     finish)))))))))))))))))))))))))))))))))))))))"

definition errorMessage :: string where
  "errorMessage = ''Uh oh. Something went wrong while loading Leaf information from the server. Please contact your Leaf administrator.''"

text \<open>
  What a run of the thunk leaves behind: the actions dispatched, what
  \<open>console.log\<close> printed, and how the thunk's own promise ends.
\<close>

record 'p run =
  dispatched :: "'p action list"
  console :: "error list"
  ending :: "unit completion"

text \<open>Lines 56-150: the \<open>try\<close> block and its \<open>catch\<close>.\<close>

definition attestAndLoadSession :: "'p environment \<Rightarrow> Attestation \<Rightarrow> 'p run" where
  "attestAndLoadSession env attestation =
     (case attestAndLoadSession_try env attestation [] of
        (as, Throw err) \<Rightarrow>
          \<lparr>dispatched = as @ [setSessionLoadState errorMessage 0, errorAttestation True],
           console = [err], ending = Normal ()\<rparr>
      | (as, Normal u) \<Rightarrow> \<lparr>dispatched = as, console = [], ending = Normal ()\<rparr>
      | (as, Hang) \<Rightarrow> \<lparr>dispatched = as, console = [], ending = Hang\<rparr>)"

text \<open>The progress values among the actions dispatched, in order.\<close>

fun progressOf :: "'p action list \<Rightarrow> nat list" where
  "progressOf [] = []"
| "progressOf (SET_SESSION_LOAD_STATE display percent # as) = percent # progressOf as"
| "progressOf (a # as) = progressOf as"

definition stageProgress :: "nat list" where
  "stageProgress = [5, 10, 20, 30, 40, 50, 60, 70, 80, 100]"

section \<open>Vocabulary of the properties\<close>

text \<open>
  The request issued for the partner at index \<open>i\<close> of \<open>homebase.responders\<close>, how it
  settles, and whether it fulfils.
\<close>

definition request :: "NetworkIdentityRespondersDTO \<Rightarrow> nat \<Rightarrow> NetworkIdentityResponseDTO" where
  "request homebase i = normalizeResponder (responders homebase ! i)"

definition outcomeOf :: "fetcher \<Rightarrow> AppState \<Rightarrow> NetworkIdentityRespondersDTO \<Rightarrow> nat \<Rightarrow> error + NetworkIdentity" where
  "outcomeOf fetch st homebase i = fetch i st (request homebase i)"

definition succeeded :: "fetcher \<Rightarrow> AppState \<Rightarrow> NetworkIdentityRespondersDTO \<Rightarrow> nat \<Rightarrow> bool" where
  "succeeded fetch st homebase i = (\<not> isl (outcomeOf fetch st homebase i))"

text \<open>
  Modelled from the spec: \<open>fetchHomeIdentityAndResponders\<close> (services/networkRespondersApi),
  which builds the home identity handed to \<open>getResponderIdentities\<close>, is not part of the
  sources at hand. The data model of the specification says of its result: "The home
  node always occupies id 0".
\<close>

definition homeOccupiesIdZero :: "NetworkIdentityRespondersDTO \<Rightarrow> bool" where
  "homeOccupiesIdZero homebase = (ni_id (identity homebase) = 0)"

text \<open>
  The reading of the specification that is compared with the code: responder ids
  follow the order of completion, the identity appended \<open>k\<close>-th having id \<open>k\<close>.
\<close>

definition idsByCompletionOrder :: "NetworkIdentity list \<Rightarrow> bool" where
  "idsByCompletionOrder found = (map ni_id (tl found) = map int [1..<length found])"

text \<open>
  The actions that only the end of a successful run dispatches: the completion of the
  attestation and the resume confirmation.
\<close>

definition isFinal :: "'p action \<Rightarrow> bool" where
  "isFinal a = (case a of COMPLETE_ATTESTATION nonce \<Rightarrow> True | ShowConfirmationModal m \<Rightarrow> True | _ \<Rightarrow> False)"



text \<open>
  A thunk that announces the progress values \<open>ps\<close>, in this order, and nothing else:
  whatever was dispatched before it stays, a run that ends normally has announced all
  of them, a run that does not has announced the first few and has dispatched no final
  action.
\<close>

definition orderly :: "nat list \<Rightarrow> 'p thunk \<Rightarrow> bool" where
  "orderly ps m =
     (\<forall>t. \<exists>suffix rest. fst (m t) = t @ suffix \<and> ps = progressOf suffix @ rest \<and>
        (snd (m t) = Normal () \<longrightarrow> rest = []) \<and>
        (snd (m t) \<noteq> Normal () \<longrightarrow> list_all (\<lambda>a. \<not> isFinal a) suffix))"


section \<open>Example inputs\<close>

definition exampleHomebase :: NetworkIdentityRespondersDTO where
  "exampleHomebase =
     \<lparr>identity = \<lparr>ni_address = [], ni_enabled = True, ni_id = 0, ni_isHomeNode = True,
                  ni_display = ''Home''\<rparr>,
      responders = [\<lparr>nr_id = 7, nr_address = ''https://a.example/''\<rparr>,
                    \<lparr>nr_id = 9, nr_address = ''https://b.example''\<rparr>]\<rparr>"

definition exampleState :: AppState where
  "exampleState =
     \<lparr>auth = \<lparr>userContext = Some \<lparr>name = ''ann'', isAdmin = False, isFederatedOkay = True\<rparr>,
              config = Some \<lparr>authentication = \<lparr>mechanism = Mechanism 1, logoutUri = None\<rparr>\<rparr>\<rparr>\<rparr>"

definition deidentified :: Attestation where
  "deidentified = \<lparr>isIdentified = False\<rparr>"

text \<open>A network on which every partner answers, with its address as display name.\<close>

definition allAnswer :: fetcher where
  "allAnswer k st nr =
     Inr \<lparr>ni_address = ''remote'', ni_enabled = False, ni_id = 99, ni_isHomeNode = True,
          ni_display = nr_address nr\<rparr>"

text \<open>A network on which the first partner cannot be reached.\<close>

definition firstFails :: fetcher where
  "firstFails k st nr = (if k = 0 then Inl (Failure ''timeout'') else allAnswer k st nr)"


text \<open>
  A run in which every collaborator answers; only the first partner cannot be reached,
  and the second partner answers before the first gives up.
\<close>

definition exampleEnvironment :: "string environment" where
  "exampleEnvironment =
     \<lparr>getState = (\<lambda>dispatched. exampleState),
      getSessionTokenAndContext = Normal \<lparr>rawDecoded = [(''access-nonce'', ''abc'')]\<rparr>,
      fetchHomeIdentityAndResponders = Normal exampleHomebase,
      fetchResponderIdentity = firstFails,
      settlingOrder = [1, 0],
      getExportOptions = Normal ''export options'',
      getImportOptions = Normal ''import options'',
      requestRootConcepts = ([''concepts''], Normal ()),
      fetchAvailableDatasets = Normal ''datasets'',
      indexDatasets = Normal ''index'',
      getSavedQueries = Normal ''saved queries'',
      getExtensionRootConcepts = Normal ''extension concepts'',
      initializeSearchEngine = ([], Normal ()),
      getPrevSession = (\<lambda>state. None),
      clock = 1700002700000\<rparr>"

section \<open>Properties of the fan-out\<close>

lemma settleAll_char:
  "distinct schedule \<Longrightarrow> set schedule \<subseteq> {..<length nrs} \<Longrightarrow> set schedule \<inter> set (resolved s) = {} \<Longrightarrow>
   settleAll nrs outcome schedule s =
     s\<lparr>pushed := pushed s @
          map (\<lambda>i. responderEntry (nrs ! i) i (projr (outcome i))) (filter (\<lambda>i. \<not> isl (outcome i)) schedule),
       errorResponderCalls := errorResponderCalls s @
          map (\<lambda>i. (nr_id (nrs ! i), projl (outcome i))) (filter (\<lambda>i. isl (outcome i)) schedule),
       resolved := resolved s @ schedule\<rparr>"
proof (induction schedule arbitrary: s)
  case Nil
  then show ?case by simp
next
  case (Cons i schedule)
  have i: "i < length nrs" "i \<notin> set (resolved s)" "i \<notin> set schedule"
    using Cons.prems by auto
  have step: "set schedule \<inter> set (resolved (settle nrs outcome i s)) = {}"
    using Cons.prems i by (auto simp: settle_def split: sum.splits)
  have "settleAll nrs outcome (i # schedule) s = settleAll nrs outcome schedule (settle nrs outcome i s)"
    by simp
  also have "\<dots> = (settle nrs outcome i s)\<lparr>pushed := pushed (settle nrs outcome i s) @
          map (\<lambda>i. responderEntry (nrs ! i) i (projr (outcome i))) (filter (\<lambda>i. \<not> isl (outcome i)) schedule),
       errorResponderCalls := errorResponderCalls (settle nrs outcome i s) @
          map (\<lambda>i. (nr_id (nrs ! i), projl (outcome i))) (filter (\<lambda>i. isl (outcome i)) schedule),
       resolved := resolved (settle nrs outcome i s) @ schedule\<rparr>"
    using Cons.prems step by (intro Cons.IH) auto
  also have "\<dots> = s\<lparr>pushed := pushed s @
          map (\<lambda>i. responderEntry (nrs ! i) i (projr (outcome i))) (filter (\<lambda>i. \<not> isl (outcome i)) (i # schedule)),
       errorResponderCalls := errorResponderCalls s @
          map (\<lambda>i. (nr_id (nrs ! i), projl (outcome i))) (filter (\<lambda>i. isl (outcome i)) (i # schedule)),
       resolved := resolved s @ (i # schedule)\<rparr>"
    using i by (cases "outcome i") (simp_all add: settle_def)
  finally show ?case .
qed

lemma allSettle_iff: "allSettle n schedule \<longleftrightarrow> distinct schedule \<and> set schedule = {..<n}"
  by (simp add: allSettle_def atLeast0LessThan)

lemma nr_id_normalizeResponder [simp]: "nr_id (normalizeResponder nr) = nr_id nr"
  by (simp add: normalizeResponder_def)

text \<open>
  When the fan-out runs and every request settles, the call fulfils, and its result is
  determined by the order of settlement: the home identity, then one entry per request
  that fulfilled, in that order; one call of \<open>errorResponder\<close> per request that was
  rejected, in that order.
\<close>

lemma getResponderIdentities_fanout:
  assumes "\<not> isIdentified attestation" and "responders homebase \<noteq> []"
    and "userContext (auth st) = Some uc" and "isFederatedOkay uc"
    and "allSettle (length (responders homebase)) schedule"
  shows "getResponderIdentities fetch schedule st attestation homebase =
     Normal \<lparr>identities = identity homebase #
                map (\<lambda>i. responderEntry (request homebase i) i (projr (outcomeOf fetch st homebase i)))
                  (filter (succeeded fetch st homebase) schedule),
             requests = map normalizeResponder (responders homebase),
             reported =
                map (\<lambda>i. (nr_id (responders homebase ! i), projl (outcomeOf fetch st homebase i)))
                  (filter (\<lambda>i. \<not> succeeded fetch st homebase i) schedule)\<rparr>"
proof -
  define nrs where "nrs = map normalizeResponder (responders homebase)"
  define outcome where "outcome = (\<lambda>i. fetch i st (nrs ! i))"
  define s0 where "s0 = \<lparr>pushed = [identity homebase], errorResponderCalls = [], resolved = []\<rparr>"
  have sched: "distinct schedule" "set schedule = {..<length nrs}"
    using assms(5) by (simp_all add: allSettle_iff nrs_def)
  have nth: "nrs ! i = request homebase i" if "i \<in> set schedule" for i
    using that sched by (simp add: nrs_def request_def)
  have out: "outcome i = outcomeOf fetch st homebase i" if "i \<in> set schedule" for i
    using nth [OF that] by (simp add: outcome_def outcomeOf_def)
  have char: "settleAll nrs outcome schedule s0 =
     s0\<lparr>pushed := pushed s0 @
          map (\<lambda>i. responderEntry (nrs ! i) i (projr (outcome i))) (filter (\<lambda>i. \<not> isl (outcome i)) schedule),
       errorResponderCalls := errorResponderCalls s0 @
          map (\<lambda>i. (nr_id (nrs ! i), projl (outcome i))) (filter (\<lambda>i. isl (outcome i)) schedule),
       resolved := resolved s0 @ schedule\<rparr>"
    using sched by (intro settleAll_char) (simp_all add: s0_def)
  have f1: "filter (\<lambda>i. \<not> isl (outcome i)) schedule = filter (succeeded fetch st homebase) schedule"
    by (rule filter_cong) (simp_all add: out succeeded_def)
  have f2: "filter (\<lambda>i. isl (outcome i)) schedule = filter (\<lambda>i. \<not> succeeded fetch st homebase i) schedule"
    by (rule filter_cong) (simp_all add: out succeeded_def)
  have m1: "map (\<lambda>i. responderEntry (nrs ! i) i (projr (outcome i))) (filter (succeeded fetch st homebase) schedule)
      = map (\<lambda>i. responderEntry (request homebase i) i (projr (outcomeOf fetch st homebase i)))
          (filter (succeeded fetch st homebase) schedule)"
    by (rule map_cong) (simp_all add: out nth)
  have m2: "map (\<lambda>i. (nr_id (nrs ! i), projl (outcome i))) (filter (\<lambda>i. \<not> succeeded fetch st homebase i) schedule)
      = map (\<lambda>i. (nr_id (responders homebase ! i), projl (outcomeOf fetch st homebase i)))
          (filter (\<lambda>i. \<not> succeeded fetch st homebase i) schedule)"
    by (rule map_cong) (simp_all add: out nth request_def)
  have all: "list_all (\<lambda>i. i \<in> set (resolved (settleAll nrs outcome schedule s0))) [0..<length nrs]"
    unfolding char using sched by (simp add: s0_def list_all_iff)
  have "getResponderIdentities fetch schedule st attestation homebase =
     Normal \<lparr>identities = pushed (settleAll nrs outcome schedule s0), requests = nrs,
             reported = errorResponderCalls (settleAll nrs outcome schedule s0)\<rparr>"
    using assms(1-4) all
    by (simp add: getResponderIdentities_def Let_def nrs_def [symmetric] outcome_def [symmetric]
        s0_def [symmetric])
  also have "pushed (settleAll nrs outcome schedule s0) = identity homebase #
      map (\<lambda>i. responderEntry (request homebase i) i (projr (outcomeOf fetch st homebase i)))
        (filter (succeeded fetch st homebase) schedule)"
    unfolding char by (simp add: s0_def f1 m1)
  also have "errorResponderCalls (settleAll nrs outcome schedule s0) =
      map (\<lambda>i. (nr_id (responders homebase ! i), projl (outcomeOf fetch st homebase i)))
        (filter (\<lambda>i. \<not> succeeded fetch st homebase i) schedule)"
    unfolding char by (simp add: s0_def f2 m2)
  finally show ?thesis by (simp add: nrs_def)
qed

text \<open>When the guard of line 155 fails, nothing is requested.\<close>

lemma getResponderIdentities_skip:
  assumes "isIdentified attestation \<or> responders homebase = [] \<or>
           (\<exists>uc. userContext (auth st) = Some uc \<and> \<not> isFederatedOkay uc)"
  shows "getResponderIdentities fetch schedule st attestation homebase =
           Normal \<lparr>identities = [identity homebase], requests = [], reported = []\<rparr>"
  using assms by (auto simp: getResponderIdentities_def Let_def)

lemma ni_id_responderEntry [simp]: "ni_id (responderEntry nr i data) = int i + 1"
  by (simp add: responderEntry_def)

lemma length_filter_same_set:
  "distinct xs \<Longrightarrow> distinct ys \<Longrightarrow> set xs = set ys \<Longrightarrow> length (filter P xs) = length (filter P ys)"
  by (simp add: distinct_length_filter)

lemma resolved_settleAll:
  "set (resolved (settleAll nrs outcome order s)) \<subseteq> set (resolved s) \<union> set order"
proof (induction order arbitrary: s)
  case Nil
  then show ?case by simp
next
  case (Cons i order)
  have "set (resolved (settle nrs outcome i s)) \<subseteq> set (resolved s) \<union> {i}"
    by (auto simp: settle_def split: sum.splits)
  then show ?case
    using Cons.IH [of "settle nrs outcome i s"] by auto
qed

text \<open>The barrier waits for every request: while one of them has not settled, the call is pending.\<close>

lemma getResponderIdentities_pending:
  assumes "\<not> isIdentified attestation" and "userContext (auth st) = Some uc" and "isFederatedOkay uc"
    and "i < length (responders homebase)" and "i \<notin> set order"
  shows "getResponderIdentities fetch order st attestation homebase = Hang"
proof -
  define nrs where "nrs = map normalizeResponder (responders homebase)"
  define s where "s = settleAll nrs (\<lambda>i. fetch i st (nrs ! i)) order
      \<lparr>pushed = [identity homebase], errorResponderCalls = [], resolved = []\<rparr>"
  have "i \<notin> set (resolved s)"
    using resolved_settleAll [of nrs "\<lambda>i. fetch i st (nrs ! i)" order
        "\<lparr>pushed = [identity homebase], errorResponderCalls = [], resolved = []\<rparr>"] assms(5)
    by (auto simp: s_def)
  then have "\<not> list_all (\<lambda>i. i \<in> set (resolved s)) [0..<length nrs]"
    using assms(4) by (auto simp: list_all_iff nrs_def)
  then show ?thesis
    using assms(1-4)
    by (auto simp: getResponderIdentities_def Let_def nrs_def [symmetric] s_def [symmetric])
qed

text \<open>
  C2. The fan-out is skipped, and the result is the home identity alone, with no request
  issued and no call of \<open>errorResponder\<close>, when the attestation is identified, or no
  partner is configured, or the user's context says \<open>isFederatedOkay\<close> is false; so an
  identified attestation gives exactly one identity whatever the number of partners.
\<close>

theorem fanout_skipped:
  assumes "isIdentified attestation \<or> responders homebase = [] \<or>
           (\<exists>uc. userContext (auth st) = Some uc \<and> \<not> isFederatedOkay uc)"
  shows "getResponderIdentities fetch schedule st attestation homebase =
           Normal \<lparr>identities = [identity homebase], requests = [], reported = []\<rparr>"
  using assms by (rule getResponderIdentities_skip)

theorem fanout_skipped_witness:
  "isIdentified \<lparr>isIdentified = True\<rparr> \<and> length (responders exampleHomebase) = 2 \<and>
   getResponderIdentities allAnswer [0, 1] exampleState \<lparr>isIdentified = True\<rparr> exampleHomebase =
     Normal \<lparr>identities = [identity exampleHomebase], requests = [], reported = []\<rparr>"
  using fanout_skipped [of "\<lparr>isIdentified = True\<rparr>" exampleHomebase exampleState allAnswer "[0, 1]"]
  by (simp add: exampleHomebase_def)

text \<open>
  C3. When the fan-out runs and every request settles, the call fulfils whatever the
  requests did: each rejected request is one call of \<open>errorResponder\<close> with the
  configured id of its node, in the order of rejection, and leaves no entry in the
  result; each fulfilled request has its entry in the result, so the number of entries
  is the number of fulfilled requests. For no order of settlement at all does the call
  reject, and while some request has not settled the call is pending.
\<close>

theorem partner_failures_isolated:
  assumes "\<not> isIdentified attestation" and "responders homebase \<noteq> []"
    and "userContext (auth st) = Some uc" and "isFederatedOkay uc"
    and "allSettle (length (responders homebase)) schedule"
  shows "(\<exists>found. getResponderIdentities fetch schedule st attestation homebase = Normal found
      \<and> reported found =
          map (\<lambda>i. (nr_id (responders homebase ! i), projl (outcomeOf fetch st homebase i)))
            (filter (\<lambda>i. \<not> succeeded fetch st homebase i) schedule)
      \<and> (\<forall>i < length (responders homebase). \<not> succeeded fetch st homebase i \<longrightarrow>
            int i + 1 \<notin> ni_id ` set (tl (identities found)))
      \<and> (\<forall>i < length (responders homebase). succeeded fetch st homebase i \<longrightarrow>
            responderEntry (request homebase i) i (projr (outcomeOf fetch st homebase i))
              \<in> set (tl (identities found)))
      \<and> length (tl (identities found)) =
          length (filter (succeeded fetch st homebase) [0..<length (responders homebase)]))
    \<and> (\<forall>order e. getResponderIdentities fetch order st attestation homebase \<noteq> Throw e)
    \<and> (\<forall>order. (\<exists>i < length (responders homebase). i \<notin> set order) \<longrightarrow>
          getResponderIdentities fetch order st attestation homebase = Hang)"
proof -
  let ?n = "length (responders homebase)"
  let ?entry = "\<lambda>i. responderEntry (request homebase i) i (projr (outcomeOf fetch st homebase i))"
  let ?ok = "succeeded fetch st homebase"
  let ?found = "\<lparr>identities = identity homebase # map ?entry (filter ?ok schedule),
      requests = map normalizeResponder (responders homebase),
      reported = map (\<lambda>i. (nr_id (responders homebase ! i), projl (outcomeOf fetch st homebase i)))
                   (filter (\<lambda>i. \<not> ?ok i) schedule)\<rparr>"
  have sched: "distinct schedule" "set schedule = {..<?n}"
    using assms(5) by (simp_all add: allSettle_iff)
  have run: "getResponderIdentities fetch schedule st attestation homebase = Normal ?found"
    using assms by (rule getResponderIdentities_fanout)
  have omitted: "int i + 1 \<notin> ni_id ` set (tl (identities ?found))" if "\<not> ?ok i" for i
  proof -
    have "ni_id ` set (map ?entry (filter ?ok schedule)) = (\<lambda>i. int i + 1) ` set (filter ?ok schedule)"
      by (simp add: image_image)
    moreover have "int i + 1 \<notin> (\<lambda>i. int i + 1) ` set (filter ?ok schedule)"
      using that by auto
    ultimately show ?thesis by simp
  qed
  have kept: "?entry i \<in> set (tl (identities ?found))" if "i < ?n" "?ok i" for i
    using that sched by simp
  have count: "length (tl (identities ?found)) = length (filter ?ok [0..<?n])"
    using sched by (simp add: length_filter_same_set [of schedule "[0..<?n]"] atLeast0LessThan)
  have never: "getResponderIdentities fetch order st attestation homebase \<noteq> Throw e" for order e
    using assms(3) by (simp add: getResponderIdentities_def Let_def)
  have waits: "getResponderIdentities fetch order st attestation homebase = Hang"
    if "i < ?n" "i \<notin> set order" for order i
    using assms(1,3,4) that by (rule getResponderIdentities_pending)
  have "\<forall>order. (\<exists>i < ?n. i \<notin> set order) \<longrightarrow>
      getResponderIdentities fetch order st attestation homebase = Hang"
    using waits by blast
  then show ?thesis
    unfolding run using omitted kept count never by simp
qed

lemma example_outcomes:
  "\<not> succeeded firstFails exampleState exampleHomebase 0"
  "succeeded firstFails exampleState exampleHomebase (Suc 0)"
  "outcomeOf firstFails exampleState exampleHomebase 0 = Inl (Failure ''timeout'')"
  "succeeded allAnswer exampleState exampleHomebase i"
  by (simp_all add: succeeded_def outcomeOf_def firstFails_def allAnswer_def)

lemma example_fanout:
  "\<not> isIdentified deidentified"
  "responders exampleHomebase \<noteq> []"
  "userContext (auth exampleState) = Some \<lparr>name = ''ann'', isAdmin = False, isFederatedOkay = True\<rparr>"
  "isFederatedOkay \<lparr>name = ''ann'', isAdmin = False, isFederatedOkay = True\<rparr>"
  "allSettle (length (responders exampleHomebase)) [1, 0]"
  "length (responders exampleHomebase) = 2"
  by (auto simp: deidentified_def exampleHomebase_def exampleState_def allSettle_def upt_rec)

lemma example_found:
  "getResponderIdentities firstFails [1, 0] exampleState deidentified exampleHomebase =
     Normal \<lparr>identities =
                [identity exampleHomebase,
                 \<lparr>ni_address = ''https://b.example'', ni_enabled = True, ni_id = 2,
                  ni_isHomeNode = False, ni_display = ''https://b.example''\<rparr>],
             requests =
                [\<lparr>nr_id = 7, nr_address = ''https://a.example''\<rparr>,
                 \<lparr>nr_id = 9, nr_address = ''https://b.example''\<rparr>],
             reported = [(7, Failure ''timeout'')]\<rparr>"
proof -
  have entry: "responderEntry (request exampleHomebase 1) 1
        (projr (outcomeOf firstFails exampleState exampleHomebase 1)) =
      \<lparr>ni_address = ''https://b.example'', ni_enabled = True, ni_id = 2,
       ni_isHomeNode = False, ni_display = ''https://b.example''\<rparr>"
    by (simp add: responderEntry_def request_def outcomeOf_def firstFails_def allAnswer_def
        normalizeResponder_def normalizeAddress_def endsWith_def exampleHomebase_def)
  have reqs: "map normalizeResponder (responders exampleHomebase) =
      [\<lparr>nr_id = 7, nr_address = ''https://a.example''\<rparr>,
       \<lparr>nr_id = 9, nr_address = ''https://b.example''\<rparr>]"
    by (simp add: normalizeResponder_def normalizeAddress_def endsWith_def exampleHomebase_def)
  have id0: "nr_id (responders exampleHomebase ! 0) = 7"
    by (simp add: exampleHomebase_def)
  show ?thesis
    unfolding getResponderIdentities_fanout [OF example_fanout(1-5), of firstFails]
    using entry by (simp add: example_outcomes reqs id0)
qed

theorem partner_failures_isolated_witness:
  "allSettle (length (responders exampleHomebase)) [1, 0] \<and>
   \<not> succeeded firstFails exampleState exampleHomebase 0 \<and>
   succeeded firstFails exampleState exampleHomebase 1 \<and>
   (\<exists>found. getResponderIdentities firstFails [1, 0] exampleState deidentified exampleHomebase = Normal found
      \<and> reported found = [(7, Failure ''timeout'')]
      \<and> length (tl (identities found)) = 1) \<and>
   getResponderIdentities firstFails [1] exampleState deidentified exampleHomebase = Hang"
proof -
  have ids: "nr_id (responders exampleHomebase ! 0) = 7"
    by (simp add: exampleHomebase_def)
  note isolated = partner_failures_isolated [OF example_fanout(1-5), of firstFails]
  have "\<exists>found. getResponderIdentities firstFails [1, 0] exampleState deidentified exampleHomebase = Normal found
      \<and> reported found = [(7, Failure ''timeout'')]
      \<and> length (tl (identities found)) = 1"
    using isolated by (auto simp: example_outcomes example_fanout(6) ids upt_rec)
  moreover have "getResponderIdentities firstFails [1] exampleState deidentified exampleHomebase = Hang"
  proof -
    have "\<exists>i < length (responders exampleHomebase). i \<notin> set [1::nat]"
      by (intro exI [of _ 0]) (simp add: example_fanout(6))
    then show ?thesis
      using isolated by blast
  qed
  ultimately show ?thesis
    using example_fanout(5) example_outcomes(1,2) by simp
qed

text \<open>
  C1, as the code has it. When the fan-out runs and every request settles, the entries
  after the home identity are, in the order of settlement, one per fulfilled request:
  the data of the response with the node's configured address after normalisation,
  \<open>enabled = true\<close>, \<open>isHomeNode = false\<close>, and as id the index of the node in the
  configured list plus one. The position of an entry follows the order of completion;
  its id follows the order of configuration.
\<close>

theorem responder_entries_by_configured_index:
  assumes "\<not> isIdentified attestation" and "responders homebase \<noteq> []"
    and "userContext (auth st) = Some uc" and "isFederatedOkay uc"
    and "allSettle (length (responders homebase)) schedule"
  shows "\<exists>found. getResponderIdentities fetch schedule st attestation homebase = Normal found
      \<and> tl (identities found) =
          map (\<lambda>i. (projr (outcomeOf fetch st homebase i))
                      \<lparr>ni_address := normalizeAddress (nr_address (responders homebase ! i)),
                       ni_enabled := True, ni_id := int i + 1, ni_isHomeNode := False\<rparr>)
            (filter (succeeded fetch st homebase) schedule)"
proof -
  have "responderEntry (request homebase i) i data =
      data\<lparr>ni_address := normalizeAddress (nr_address (responders homebase ! i)),
           ni_enabled := True, ni_id := int i + 1, ni_isHomeNode := False\<rparr>" for i data
    by (simp add: responderEntry_def request_def normalizeResponder_def)
  then show ?thesis
    unfolding getResponderIdentities_fanout [OF assms] by simp
qed

theorem responder_entries_by_configured_index_witness:
  "allSettle (length (responders exampleHomebase)) [1, 0] \<and>
   (\<exists>found. getResponderIdentities allAnswer [1, 0] exampleState deidentified exampleHomebase = Normal found
      \<and> tl (identities found) =
          [\<lparr>ni_address = ''https://b.example'', ni_enabled = True, ni_id = 2,
            ni_isHomeNode = False, ni_display = ''https://b.example''\<rparr>,
           \<lparr>ni_address = ''https://a.example'', ni_enabled = True, ni_id = 1,
            ni_isHomeNode = False, ni_display = ''https://a.example''\<rparr>])"
proof -
  obtain found where run:
    "getResponderIdentities allAnswer [1, 0] exampleState deidentified exampleHomebase = Normal found"
    and entries: "tl (identities found) =
          map (\<lambda>i. (projr (outcomeOf allAnswer exampleState exampleHomebase i))
                      \<lparr>ni_address := normalizeAddress (nr_address (responders exampleHomebase ! i)),
                       ni_enabled := True, ni_id := int i + 1, ni_isHomeNode := False\<rparr>)
            (filter (succeeded allAnswer exampleState exampleHomebase) [1, 0])"
    using responder_entries_by_configured_index [OF example_fanout(1-5), of allAnswer] by blast
  have "filter (succeeded allAnswer exampleState exampleHomebase) [1, 0] = [1, 0]"
    by (simp add: example_outcomes)
  then have "tl (identities found) =
          [\<lparr>ni_address = ''https://b.example'', ni_enabled = True, ni_id = 2,
            ni_isHomeNode = False, ni_display = ''https://b.example''\<rparr>,
           \<lparr>ni_address = ''https://a.example'', ni_enabled = True, ni_id = 1,
            ni_isHomeNode = False, ni_display = ''https://a.example''\<rparr>]"
    unfolding entries
    by (simp add: outcomeOf_def request_def normalizeResponder_def normalizeAddress_def
        endsWith_def allAnswer_def exampleHomebase_def)
  then show ?thesis
    using run example_fanout(5) by (intro conjI exI [of _ found]) simp_all
qed

text \<open>
  C1, as the specification words it, fails. Two partners are configured and both answer,
  the second before the first: the entry appended first has id 2 and the one appended
  second has id 1, so the ids do not follow the order of completion.
\<close>

theorem ids_by_completion_order_counterexample:
  "\<exists>found. getResponderIdentities allAnswer [1, 0] exampleState deidentified exampleHomebase = Normal found
      \<and> map ni_id (identities found) = [0, 2, 1]
      \<and> \<not> idsByCompletionOrder (identities found)"
proof -
  have ids: "ni_id (identity exampleHomebase) = 0"
    by (simp add: exampleHomebase_def)
  show ?thesis
    unfolding getResponderIdentities_fanout [OF example_fanout(1-5), of allAnswer]
    by (simp add: example_outcomes idsByCompletionOrder_def ids upt_rec)
qed

text \<open>
  C4. For any number of configured partners, with a de-identified attestation, a user
  for whom federation is allowed and every request settling, the call fulfils with one
  identity more than there are fulfilled requests; the first is the home identity as it
  was passed in, which has id 0 by the data model;
  the ids of the others are pairwise distinct and lie between 1 and the number of
  partners; and when no request fulfils the result is the home identity alone.
\<close>

theorem aggregate_size_and_ids:
  assumes "\<not> isIdentified attestation"
    and "userContext (auth st) = Some uc" and "isFederatedOkay uc"
    and "allSettle (length (responders homebase)) schedule"
    and "homeOccupiesIdZero homebase"
  shows "\<exists>found. getResponderIdentities fetch schedule st attestation homebase = Normal found
      \<and> length (identities found) =
          1 + length (filter (succeeded fetch st homebase) [0..<length (responders homebase)])
      \<and> identities found ! 0 = identity homebase
      \<and> ni_id (identities found ! 0) = 0
      \<and> distinct (map ni_id (tl (identities found)))
      \<and> (\<forall>x \<in> set (tl (identities found)).
            1 \<le> ni_id x \<and> ni_id x \<le> int (length (responders homebase)))
      \<and> ((\<forall>i < length (responders homebase). \<not> succeeded fetch st homebase i) \<longrightarrow>
            identities found = [identity homebase])"
proof (cases "responders homebase = []")
  case True
  then have "getResponderIdentities fetch schedule st attestation homebase =
      Normal \<lparr>identities = [identity homebase], requests = [], reported = []\<rparr>"
    by (simp add: getResponderIdentities_skip)
  then show ?thesis
    using True assms(5) by (simp add: homeOccupiesIdZero_def)
next
  case False
  let ?n = "length (responders homebase)"
  let ?ok = "succeeded fetch st homebase"
  have sched: "distinct schedule" "set schedule = {..<?n}"
    using assms(4) by (simp_all add: allSettle_iff)
  note run = getResponderIdentities_fanout [OF assms(1) False assms(2,3,4), of fetch]
  have count: "length (filter ?ok schedule) = length (filter ?ok [0..<?n])"
    using sched by (simp add: length_filter_same_set [of schedule "[0..<?n]"] atLeast0LessThan)
  have dist: "distinct (map (\<lambda>i. int i + 1) (filter ?ok schedule))"
    using sched by (simp add: distinct_map inj_on_def)
  have range: "1 \<le> int i + 1 \<and> int i + 1 \<le> int ?n" if "i \<in> set (filter ?ok schedule)" for i
    using that sched by auto
  have none: "filter ?ok schedule = []" if "\<forall>i < ?n. \<not> ?ok i"
    using that sched by (auto simp: filter_empty_conv)
  show ?thesis
    unfolding run using count dist range none assms(5)
    by (auto simp: comp_def homeOccupiesIdZero_def)
qed

theorem aggregate_size_and_ids_witness:
  "allSettle (length (responders exampleHomebase)) [1, 0] \<and>
   homeOccupiesIdZero exampleHomebase \<and>
   (\<exists>found. getResponderIdentities firstFails [1, 0] exampleState deidentified exampleHomebase = Normal found
      \<and> length (identities found) = 2
      \<and> identities found ! 0 = identity exampleHomebase
      \<and> map ni_id (identities found) = [0, 2])"
proof -
  have home: "homeOccupiesIdZero exampleHomebase"
    by (simp add: homeOccupiesIdZero_def exampleHomebase_def)
  obtain found where found:
    "getResponderIdentities firstFails [1, 0] exampleState deidentified exampleHomebase = Normal found"
    "identities found ! 0 = identity exampleHomebase"
    "length (identities found) =
       1 + length (filter (succeeded firstFails exampleState exampleHomebase)
                     [0..<length (responders exampleHomebase)])"
    using aggregate_size_and_ids [OF example_fanout(1,3,4,5) home, of firstFails] by blast
  have len: "length (identities found) = 2"
    using found(3) by (simp add: example_fanout(6) example_outcomes upt_rec)
  have "map ni_id (identities found) = [0, 2]"
    using found(1)
    unfolding getResponderIdentities_fanout [OF example_fanout(1-5), of firstFails]
    using home by (auto simp: example_outcomes homeOccupiesIdZero_def)
  then show ?thesis
    using found(1,2) len home example_fanout(5) by (intro conjI exI [of _ found]) simp_all
qed

section \<open>Properties of the address normalisation\<close>

lemma endsWith_slash: "endsWith a ''/'' \<longleftrightarrow> a \<noteq> [] \<and> last a = CHR ''/''"
proof (cases a rule: rev_cases)
  case Nil
  then show ?thesis by (simp add: endsWith_def)
next
  case (snoc xs x)
  then show ?thesis by (simp add: endsWith_def)
qed

lemma normalizeAddress_snoc: "normalizeAddress (a @ ''/'') = a"
  by (simp add: normalizeAddress_def endsWith_slash)

lemma normalizeAddress_unchanged: "\<not> endsWith a ''/'' \<Longrightarrow> normalizeAddress a = a"
  by (simp add: normalizeAddress_def)

lemma getResponderIdentities_requests:
  "getResponderIdentities fetch schedule st attestation homebase = Normal found \<Longrightarrow>
   requests found = [] \<or> requests found = map normalizeResponder (responders homebase)"
  by (auto simp: getResponderIdentities_def Let_def split: if_splits option.splits)

lemma getResponderIdentities_cong:
  "identity h = identity h' \<Longrightarrow>
   map normalizeResponder (responders h) = map normalizeResponder (responders h') \<Longrightarrow>
   getResponderIdentities fetch schedule st attestation h =
   getResponderIdentities fetch schedule st attestation h'"
proof -
  assume id: "identity h = identity h'"
    and nrs: "map normalizeResponder (responders h) = map normalizeResponder (responders h')"
  from nrs have "length (responders h) = length (responders h')"
    by (rule map_eq_imp_length_eq)
  then show ?thesis
    unfolding getResponderIdentities_def Let_def id nrs by simp
qed

text \<open>
  C8. The address handed to \<open>fetchResponderIdentity\<close> is the configured one without its
  last character when that is a slash, and the configured one otherwise: exactly one
  trailing slash is stripped, an address without one is unchanged, every request
  issued carries a normalised address, and a partner configured with a trailing slash
  is resolved as the same partner configured without it.
\<close>

theorem trailing_slash_stripped:
  "normalizeAddress (a @ ''/'') = a
   \<and> (\<not> endsWith a ''/'' \<longrightarrow> normalizeAddress a = a)
   \<and> (getResponderIdentities fetch schedule st attestation homebase = Normal found \<longrightarrow>
        (\<forall>q \<in> set (requests found). \<exists>nr \<in> set (responders homebase).
            q = nr\<lparr>nr_address := normalizeAddress (nr_address nr)\<rparr>))
   \<and> (\<not> endsWith a ''/'' \<longrightarrow>
        getResponderIdentities fetch schedule st attestation
          (homebase\<lparr>responders := before @ nr\<lparr>nr_address := a @ ''/''\<rparr> # after\<rparr>) =
        getResponderIdentities fetch schedule st attestation
          (homebase\<lparr>responders := before @ nr\<lparr>nr_address := a\<rparr> # after\<rparr>))
   \<and> normalizeAddress ''https://node.example/'' = normalizeAddress ''https://node.example''"
proof -
  have issued: "\<forall>q \<in> set (requests found). \<exists>nr \<in> set (responders homebase).
            q = nr\<lparr>nr_address := normalizeAddress (nr_address nr)\<rparr>"
    if "getResponderIdentities fetch schedule st attestation homebase = Normal found"
    using getResponderIdentities_requests [OF that] by (auto simp: normalizeResponder_def)
  have same: "getResponderIdentities fetch schedule st attestation
          (homebase\<lparr>responders := before @ nr\<lparr>nr_address := a @ ''/''\<rparr> # after\<rparr>) =
        getResponderIdentities fetch schedule st attestation
          (homebase\<lparr>responders := before @ nr\<lparr>nr_address := a\<rparr> # after\<rparr>)"
    if "\<not> endsWith a ''/''"
    using that
    by (intro getResponderIdentities_cong)
      (simp_all add: normalizeResponder_def normalizeAddress_snoc normalizeAddress_unchanged)
  have example: "normalizeAddress ''https://node.example/'' = normalizeAddress ''https://node.example''"
    by (simp add: normalizeAddress_def endsWith_def)
  show ?thesis
    using normalizeAddress_snoc normalizeAddress_unchanged issued same example by blast
qed

theorem trailing_slash_stripped_witness:
  "\<not> endsWith ''https://node.example'' ''/''
   \<and> normalizeAddress ''https://node.example/'' = ''https://node.example''
   \<and> normalizeAddress ''https://node.example'' = ''https://node.example''
   \<and> getResponderIdentities firstFails [1, 0] exampleState deidentified
        (exampleHomebase\<lparr>responders := [\<lparr>nr_id = 3, nr_address = ''https://node.example/''\<rparr>]\<rparr>) =
      getResponderIdentities firstFails [1, 0] exampleState deidentified
        (exampleHomebase\<lparr>responders := [\<lparr>nr_id = 3, nr_address = ''https://node.example''\<rparr>]\<rparr>)
   \<and> (\<exists>nr \<in> set (responders exampleHomebase).
         \<lparr>nr_id = 7, nr_address = ''https://a.example''\<rparr> =
           nr\<lparr>nr_address := normalizeAddress (nr_address nr)\<rparr>)"
proof -
  have no_slash: "\<not> endsWith ''https://node.example'' ''/''"
    by (simp add: endsWith_def)
  note stripped =
    trailing_slash_stripped [of "''https://node.example''" firstFails "[1, 0]" exampleState deidentified
      exampleHomebase
      "\<lparr>identities =
          [identity exampleHomebase,
           \<lparr>ni_address = ''https://b.example'', ni_enabled = True, ni_id = 2,
            ni_isHomeNode = False, ni_display = ''https://b.example''\<rparr>],
        requests =
          [\<lparr>nr_id = 7, nr_address = ''https://a.example''\<rparr>,
           \<lparr>nr_id = 9, nr_address = ''https://b.example''\<rparr>],
        reported = [(7, Failure ''timeout'')]\<rparr>"
      "[]" "\<lparr>nr_id = 3, nr_address = []\<rparr>" "[]"]
  have issued: "\<exists>nr \<in> set (responders exampleHomebase).
         \<lparr>nr_id = 7, nr_address = ''https://a.example''\<rparr> =
           nr\<lparr>nr_address := normalizeAddress (nr_address nr)\<rparr>"
    using stripped example_found by simp
  show ?thesis
    using no_slash stripped issued by simp
qed

section \<open>Properties of the session reload\<close>











section \<open>Properties of the logout\<close>



section \<open>Properties of the pipeline\<close>

lemma progressOf_append: "progressOf (as @ bs) = progressOf as @ progressOf bs"
  by (induction as rule: progressOf.induct) simp_all

lemma progressOf_Collaborator [simp]: "progressOf (map Collaborator xs) = []"
  by (induction xs) simp_all

lemma not_final_Collaborator [simp]: "list_all (\<lambda>a. \<not> isFinal a) (map Collaborator xs)"
  by (induction xs) (simp_all add: isFinal_def)

lemma progressOf_handleSessionReload [simp]:
  "progressOf (handleSessionReload getPrev now state) = []"
  by (simp add: handleSessionReload_def Let_def split: option.splits)

lemma orderly_finish: "orderly [] finish"
  by (simp add: orderly_def finish_def)

lemma orderly_progress:
  assumes "orderly ps m"
  shows "orderly (p # ps) (dispatch (setSessionLoadState d p) m)"
  unfolding orderly_def
proof
  fix t
  let ?a = "setSessionLoadState d p :: 'a action"
  from assms obtain suffix rest where s: "fst (m (t @ [?a])) = (t @ [?a]) @ suffix"
    "ps = progressOf suffix @ rest" "snd (m (t @ [?a])) = Normal () \<longrightarrow> rest = []"
    "snd (m (t @ [?a])) \<noteq> Normal () \<longrightarrow> list_all (\<lambda>a. \<not> isFinal a) suffix"
    unfolding orderly_def by blast
  have "fst (dispatch ?a m t) = t @ (?a # suffix)"
    using s(1) by (simp add: dispatch_def)
  moreover have "p # ps = progressOf (?a # suffix) @ rest"
    using s(2) by (simp add: setSessionLoadState_def)
  moreover have "snd (dispatch ?a m t) = Normal () \<longrightarrow> rest = []"
    using s(3) by (simp add: dispatch_def)
  moreover have "snd (dispatch ?a m t) \<noteq> Normal () \<longrightarrow> list_all (\<lambda>a. \<not> isFinal a) (?a # suffix)"
    using s(4) by (simp add: dispatch_def setSessionLoadState_def isFinal_def)
  ultimately show "\<exists>suffix rest. fst (dispatch ?a m t) = t @ suffix \<and>
      p # ps = progressOf suffix @ rest \<and> (snd (dispatch ?a m t) = Normal () \<longrightarrow> rest = []) \<and>
      (snd (dispatch ?a m t) \<noteq> Normal () \<longrightarrow> list_all (\<lambda>a. \<not> isFinal a) suffix)"
    by blast
qed

lemma orderly_dispatchAll:
  assumes "progressOf as = []" and "list_all (\<lambda>a. \<not> isFinal a) as" and "orderly ps m"
  shows "orderly ps (dispatchAll as m)"
  unfolding orderly_def
proof
  fix t
  from assms(3) obtain suffix rest where s: "fst (m (t @ as)) = (t @ as) @ suffix"
    "ps = progressOf suffix @ rest" "snd (m (t @ as)) = Normal () \<longrightarrow> rest = []"
    "snd (m (t @ as)) \<noteq> Normal () \<longrightarrow> list_all (\<lambda>a. \<not> isFinal a) suffix"
    unfolding orderly_def by blast
  have "fst (dispatchAll as m t) = t @ (as @ suffix)"
    using s(1) by (simp add: dispatchAll_def)
  moreover have "ps = progressOf (as @ suffix) @ rest"
    using s(2) assms(1) by (simp add: progressOf_append)
  moreover have "snd (dispatchAll as m t) = Normal () \<longrightarrow> rest = []"
    using s(3) by (simp add: dispatchAll_def)
  moreover have "snd (dispatchAll as m t) \<noteq> Normal () \<longrightarrow> list_all (\<lambda>a. \<not> isFinal a) (as @ suffix)"
    using s(4) assms(2) by (simp add: dispatchAll_def)
  ultimately show "\<exists>suffix rest. fst (dispatchAll as m t) = t @ suffix \<and>
      ps = progressOf suffix @ rest \<and> (snd (dispatchAll as m t) = Normal () \<longrightarrow> rest = []) \<and>
      (snd (dispatchAll as m t) \<noteq> Normal () \<longrightarrow> list_all (\<lambda>a. \<not> isFinal a) suffix)"
    by blast
qed

lemma orderly_dispatch:
  assumes "progressOf [a] = []" and "\<not> isFinal a" and "orderly ps m"
  shows "orderly ps (dispatch a m)"
proof -
  have "dispatch a m = dispatchAll [a] m"
    by (rule ext) (simp add: dispatch_def dispatchAll_def)
  then show ?thesis
    using orderly_dispatchAll [of "[a]" ps m] assms by simp
qed

lemma orderly_dispatchIf:
  assumes "progressOf [a] = []" and "\<not> isFinal a" and "orderly ps m"
  shows "orderly ps (dispatchIf b a m)"
  using assms orderly_dispatch [of a ps m] by (simp add: dispatchIf_def)

lemma orderly_await:
  assumes "\<And>v. orderly ps (k v)"
  shows "orderly ps (await promise k)"
proof (cases promise)
  case (Normal v)
  then have "await promise k = k v"
    by (intro ext) (simp add: await_def)
  then show ?thesis
    using assms by simp
next
  case (Throw e)
  then show ?thesis
    by (simp add: orderly_def await_def)
next
  case Hang
  then show ?thesis
    by (simp add: orderly_def await_def)
qed

lemma orderly_awaitWith:
  assumes "orderly ps m"
  shows "orderly ps (awaitWith collaborator m)"
  unfolding awaitWith_def
  by (intro orderly_dispatchAll orderly_await assms) simp_all

lemma orderly_withState:
  assumes "\<And>state. orderly ps (k state)"
  shows "orderly ps (withState env k)"
  unfolding orderly_def withState_def
  using assms unfolding orderly_def by blast

text \<open>The last statements of the block, from \<open>completeAttestation\<close> on, cannot fail.\<close>

lemma orderly_completion:
  "orderly [] (dispatch (completeAttestation nonce)
     (withState env (\<lambda>state. dispatchAll (handleSessionReload getPrev now state) finish)))"
  by (simp add: orderly_def dispatch_def withState_def dispatchAll_def finish_def
      completeAttestation_def)

lemma orderly_try: "orderly stageProgress (attestAndLoadSession_try env attestation)"
  unfolding attestAndLoadSession_try_def stageProgress_def
  by (rule orderly_progress
      | (rule orderly_dispatch, (simp add: submitAttestation_def setSessionContext_def; fail),
          (simp add: isFinal_def submitAttestation_def setSessionContext_def; fail))
      | (rule orderly_dispatchIf, (simp; fail), (simp add: isFinal_def; fail))
      | rule orderly_await
      | rule orderly_awaitWith
      | rule orderly_withState
      | rule orderly_completion)+









lemma stageProgress_prefix:
  assumes "stageProgress = ps @ rest"
  shows "sorted ps \<and> 0 \<notin> set ps"
proof -
  have "sorted stageProgress" "0 \<notin> set stageProgress"
    by (simp_all add: stageProgress_def)
  then show ?thesis
    unfolding assms by (simp add: sorted_append)
qed

text \<open>What the \<open>try\<close> block leaves behind, by the way it ends.\<close>

lemma try_trace:
  "\<exists>before c rest. attestAndLoadSession_try env attestation [] = (before, c)
     \<and> stageProgress = progressOf before @ rest
     \<and> (c = Normal () \<longrightarrow> rest = [])
     \<and> (c \<noteq> Normal () \<longrightarrow> list_all (\<lambda>a. \<not> isFinal a) before)"
proof -
  from orderly_try [of env attestation] obtain suffix rest where
    "fst (attestAndLoadSession_try env attestation []) = [] @ suffix"
    "stageProgress = progressOf suffix @ rest"
    "snd (attestAndLoadSession_try env attestation []) = Normal () \<longrightarrow> rest = []"
    "snd (attestAndLoadSession_try env attestation []) \<noteq> Normal () \<longrightarrow>
       list_all (\<lambda>a. \<not> isFinal a) suffix"
    unfolding orderly_def by blast
  then show ?thesis
    by (cases "attestAndLoadSession_try env attestation []") auto
qed

lemma attestAndLoadSession_Throw:
  "attestAndLoadSession_try env attestation [] = (before, Throw e) \<Longrightarrow>
   attestAndLoadSession env attestation =
     \<lparr>dispatched = before @ [SET_SESSION_LOAD_STATE errorMessage 0, ERROR_ATTESTATION True],
      console = [e], ending = Normal ()\<rparr>"
  by (simp add: attestAndLoadSession_def setSessionLoadState_def errorAttestation_def)

lemma attestAndLoadSession_Normal:
  "attestAndLoadSession_try env attestation [] = (before, Normal ()) \<Longrightarrow>
   attestAndLoadSession env attestation = \<lparr>dispatched = before, console = [], ending = Normal ()\<rparr>"
  by (simp add: attestAndLoadSession_def)

lemma attestAndLoadSession_Hang:
  "attestAndLoadSession_try env attestation [] = (before, Hang) \<Longrightarrow>
   attestAndLoadSession env attestation = \<lparr>dispatched = before, console = [], ending = Hang\<rparr>"
  by (simp add: attestAndLoadSession_def)

text \<open>
  C5. On a run whose \<open>try\<close> block ends normally the progress values dispatched are
  5, 10, 20, 30, 40, 50, 60, 70, 80, 100: non-decreasing and ending at 100. On a run in
  which it throws they are the first few of these followed by one 0, which is the last
  value. On a run that waits for ever they are the first few of these. So a 0 is
  dispatched only when the block has thrown.
\<close>

theorem progress_sequence:
  "(snd (attestAndLoadSession_try env attestation []) = Normal () \<longrightarrow>
      progressOf (dispatched (attestAndLoadSession env attestation)) =
        [5, 10, 20, 30, 40, 50, 60, 70, 80, 100]
      \<and> sorted (progressOf (dispatched (attestAndLoadSession env attestation)))
      \<and> last (progressOf (dispatched (attestAndLoadSession env attestation))) = 100)
   \<and> (\<forall>e. snd (attestAndLoadSession_try env attestation []) = Throw e \<longrightarrow>
        (\<exists>ps rest. progressOf (dispatched (attestAndLoadSession env attestation)) = ps @ [0]
           \<and> [5, 10, 20, 30, 40, 50, 60, 70, 80, 100] = ps @ rest \<and> sorted ps \<and> 0 \<notin> set ps))
   \<and> (snd (attestAndLoadSession_try env attestation []) = Hang \<longrightarrow>
        (\<exists>rest. [5, 10, 20, 30, 40, 50, 60, 70, 80, 100] =
           progressOf (dispatched (attestAndLoadSession env attestation)) @ rest))
   \<and> (0 \<in> set (progressOf (dispatched (attestAndLoadSession env attestation))) \<longrightarrow>
        (\<exists>e. snd (attestAndLoadSession_try env attestation []) = Throw e))"
proof -
  obtain before c rest where run: "attestAndLoadSession_try env attestation [] = (before, c)"
    and pre: "stageProgress = progressOf before @ rest"
    and full: "c = Normal () \<longrightarrow> rest = []"
    using try_trace [of env attestation] by blast
  note free = stageProgress_prefix [OF pre]
  show ?thesis
  proof (cases c)
    case (Normal u)
    then have "progressOf (dispatched (attestAndLoadSession env attestation)) = stageProgress"
      using run pre full by (simp add: attestAndLoadSession_Normal)
    then show ?thesis
      using run Normal by (simp add: stageProgress_def)
  next
    case (Throw e)
    have "progressOf (dispatched (attestAndLoadSession env attestation)) = progressOf before @ [0]"
      using run Throw by (simp add: attestAndLoadSession_Throw progressOf_append)
    then show ?thesis
      using run Throw pre free by (auto simp: stageProgress_def)
  next
    case Hang
    then have "progressOf (dispatched (attestAndLoadSession env attestation)) = progressOf before"
      using run by (simp add: attestAndLoadSession_Hang)
    then show ?thesis
      using run Hang pre free by (auto simp: stageProgress_def)
  qed
qed


lemmas run_simps =
  attestAndLoadSession_try_def dispatch_def await_def withState_def userContextOf_def
  dispatchIf_def awaitWith_def dispatchAll_def finish_def handleSessionReload_def
  setSessionLoadState_def submitAttestation_def setSessionContext_def completeAttestation_def
  errorAttestation_def exampleEnvironment_def example_fanout(3)
  example_found [unfolded One_nat_def]

lemma example_success:
  "attestAndLoadSession_try exampleEnvironment deidentified [] =
     ([SET_SESSION_LOAD_STATE ''Submitting Attestation'' 5,
       SUBMIT_ATTESTATION deidentified,
       SET_ACCESS_TOKEN \<lparr>rawDecoded = [(''access-nonce'', ''abc'')]\<rparr>,
       SetUserInquiryState ''ann'' False,
       SET_SESSION_LOAD_STATE ''Finding Home Leaf server'' 10,
       SET_SESSION_LOAD_STATE ''Finding Partner Leaf servers'' 20,
       SetResponders
         [identity exampleHomebase,
          \<lparr>ni_address = ''https://b.example'', ni_enabled = True, ni_id = 2,
           ni_isHomeNode = False, ni_display = ''https://b.example''\<rparr>],
       RegisterNetworkCohorts
         [identity exampleHomebase,
          \<lparr>ni_address = ''https://b.example'', ni_enabled = True, ni_id = 2,
           ni_isHomeNode = False, ni_display = ''https://b.example''\<rparr>],
       SET_SESSION_LOAD_STATE ''Loading Export options'' 30,
       SetExportOptions ''export options'',
       SET_SESSION_LOAD_STATE ''Loading Import options'' 40,
       SetImportOptions ''import options'',
       SET_SESSION_LOAD_STATE ''Loading Concepts'' 50,
       Collaborator ''concepts'',
       SET_SESSION_LOAD_STATE ''Loading Patient List Datasets'' 60,
       SetDatasets ''datasets'' ''index'',
       SET_SESSION_LOAD_STATE ''Loading Saved Queries'' 70,
       AddSavedQueries ''saved queries'',
       SET_SESSION_LOAD_STATE ''Loading Extension Concepts'' 80,
       SetExtensionRootConcepts ''extension concepts'',
       SET_SESSION_LOAD_STATE ''Initializing Search Engine'' 100,
       COMPLETE_ATTESTATION (Some ''abc'')], Normal ())"
  by (simp add: run_simps)

lemma example_failure:
  "attestAndLoadSession_try (exampleEnvironment\<lparr>getExportOptions := Throw (Failure ''500'')\<rparr>)
       deidentified [] =
     ([SET_SESSION_LOAD_STATE ''Submitting Attestation'' 5,
       SUBMIT_ATTESTATION deidentified,
       SET_ACCESS_TOKEN \<lparr>rawDecoded = [(''access-nonce'', ''abc'')]\<rparr>,
       SetUserInquiryState ''ann'' False,
       SET_SESSION_LOAD_STATE ''Finding Home Leaf server'' 10,
       SET_SESSION_LOAD_STATE ''Finding Partner Leaf servers'' 20,
       SetResponders
         [identity exampleHomebase,
          \<lparr>ni_address = ''https://b.example'', ni_enabled = True, ni_id = 2,
           ni_isHomeNode = False, ni_display = ''https://b.example''\<rparr>],
       RegisterNetworkCohorts
         [identity exampleHomebase,
          \<lparr>ni_address = ''https://b.example'', ni_enabled = True, ni_id = 2,
           ni_isHomeNode = False, ni_display = ''https://b.example''\<rparr>],
       SET_SESSION_LOAD_STATE ''Loading Export options'' 30], Throw (Failure ''500''))"
  by (simp add: run_simps)

theorem progress_sequence_witness:
  "snd (attestAndLoadSession_try exampleEnvironment deidentified []) = Normal ()
   \<and> progressOf (dispatched (attestAndLoadSession exampleEnvironment deidentified)) =
       [5, 10, 20, 30, 40, 50, 60, 70, 80, 100]
   \<and> snd (attestAndLoadSession_try (exampleEnvironment\<lparr>getExportOptions := Throw (Failure ''500'')\<rparr>)
            deidentified []) = Throw (Failure ''500'')
   \<and> (\<exists>ps rest. progressOf (dispatched (attestAndLoadSession
           (exampleEnvironment\<lparr>getExportOptions := Throw (Failure ''500'')\<rparr>) deidentified)) = ps @ [0]
         \<and> [5, 10, 20, 30, 40, 50, 60, 70, 80, 100] = ps @ rest \<and> sorted ps \<and> 0 \<notin> set ps)
   \<and> progressOf (dispatched (attestAndLoadSession
         (exampleEnvironment\<lparr>getExportOptions := Throw (Failure ''500'')\<rparr>) deidentified)) =
       [5, 10, 20, 30, 0]"
proof -
  let ?failing = "exampleEnvironment\<lparr>getExportOptions := Throw (Failure ''500'')\<rparr>"
  have ok: "snd (attestAndLoadSession_try exampleEnvironment deidentified []) = Normal ()"
    by (simp add: example_success)
  have bad: "snd (attestAndLoadSession_try ?failing deidentified []) = Throw (Failure ''500'')"
    by (simp add: example_failure)
  have "progressOf (dispatched (attestAndLoadSession exampleEnvironment deidentified)) =
       [5, 10, 20, 30, 40, 50, 60, 70, 80, 100]"
    using ok progress_sequence [of exampleEnvironment deidentified] by blast
  moreover have "\<exists>ps rest. progressOf (dispatched (attestAndLoadSession ?failing deidentified)) = ps @ [0]
         \<and> [5, 10, 20, 30, 40, 50, 60, 70, 80, 100] = ps @ rest \<and> sorted ps \<and> 0 \<notin> set ps"
    using bad progress_sequence [of ?failing deidentified] by blast
  moreover have "progressOf (dispatched (attestAndLoadSession ?failing deidentified)) = [5, 10, 20, 30, 0]"
    by (simp add: attestAndLoadSession_Throw [OF example_failure])
  ultimately show ?thesis
    using ok bad by simp
qed



end
